theory Spec2Isabelle
  imports Main "HOL-Library.Sublist" "HOL-Library.Char_ord" "HOL-Library.List_Lexorder"
begin

section \<open>Characters and strings of the journal processor\<close>

text \<open>
  The program \<^verbatim>\<open>digital_journal.py\<close> works on Python \<^verbatim>\<open>str\<close> values. A string is modelled
  as a \<^typ>\<open>string\<close>, each \<^typ>\<open>char\<close> standing for the code point of the same number
  (U+0000 to U+00FF). The character classes below are those of Python on these code
  points: \<^verbatim>\<open>str.isspace\<close> (used by \<^verbatim>\<open>str.strip()\<close> and by \<^verbatim>\<open>\s\<close>), \<^verbatim>\<open>\w\<close>, the
  ranges \<^verbatim>\<open>[A-Z]\<close> and \<^verbatim>\<open>[a-z]\<close>, and \<^verbatim>\<open>str.lower\<close>.
\<close>

definition code :: "char \<Rightarrow> nat" where
  "code c = of_char c"

definition isspace :: "char \<Rightarrow> bool" where
  "isspace c = ((9 \<le> code c \<and> code c \<le> 13) \<or> (28 \<le> code c \<and> code c \<le> 32)
                 \<or> code c = 133 \<or> code c = 160)"

definition is_upper_AZ :: "char \<Rightarrow> bool" where
  "is_upper_AZ c = (65 \<le> code c \<and> code c \<le> 90)"

definition is_lower_az :: "char \<Rightarrow> bool" where
  "is_lower_az c = (97 \<le> code c \<and> code c \<le> 122)"

definition is_word :: "char \<Rightarrow> bool" where
  "is_word c = ((48 \<le> code c \<and> code c \<le> 57) \<or> is_upper_AZ c \<or> code c = 95 \<or> is_lower_az c
                 \<or> code c = 170 \<or> (178 \<le> code c \<and> code c \<le> 179) \<or> code c = 181
                 \<or> (185 \<le> code c \<and> code c \<le> 186) \<or> (188 \<le> code c \<and> code c \<le> 190)
                 \<or> (192 \<le> code c \<and> code c \<le> 214) \<or> (216 \<le> code c \<and> code c \<le> 246)
                 \<or> 248 \<le> code c)"

definition lower_char :: "char \<Rightarrow> char" where
  "lower_char c =
     (if is_upper_AZ c \<or> (192 \<le> code c \<and> code c \<le> 214) \<or> (216 \<le> code c \<and> code c \<le> 222)
      then char_of (code c + 32) else c)"

definition lower :: "string \<Rightarrow> string" where
  "lower s = map lower_char s"

definition strip :: "string \<Rightarrow> string" where
  "strip s = rev (dropWhile isspace (rev (dropWhile isspace s)))"

fun join :: "string \<Rightarrow> string list \<Rightarrow> string" where
  "join sep [] = []"
| "join sep [x] = x"
| "join sep (x # y # ys) = x @ sep @ join sep (y # ys)"

section \<open>Sentence splitting\<close>

definition is_terminal :: "char \<Rightarrow> bool" where
  "is_terminal c = (c = CHR ''.'' \<or> c = CHR ''!'' \<or> c = CHR ''?'')"

text \<open>
  \<^verbatim>\<open>re.split(r"(?<=[.!?])\s+", s)\<close>: the pattern matches a maximal run of whitespace whose
  first character comes right after one of \<^verbatim>\<open>.\<close>, \<^verbatim>\<open>!\<close>, \<^verbatim>\<open>?\<close>; the result is the list of
  the pieces between the matches. The list is never empty (the empty string gives one
  empty piece), so the first branch of the \<open>case\<close> below is never taken.
\<close>

function re_split_terminal :: "string \<Rightarrow> string list" where
  "re_split_terminal [] = [[]]"
| "re_split_terminal (c # cs) =
     (if is_terminal c \<and> cs \<noteq> [] \<and> isspace (hd cs)
      then [c] # re_split_terminal (dropWhile isspace cs)
      else (case re_split_terminal cs of
              [] \<Rightarrow> [[c]]
            | p # ps \<Rightarrow> (c # p) # ps))"
  by pat_completeness auto
termination
  by (relation "measure length") (auto simp: le_imp_less_Suc length_dropWhile_le)

definition sentence_split :: "string \<Rightarrow> string list" where
  "sentence_split text =
     map strip (filter (\<lambda>sentence. strip sentence \<noteq> []) (re_split_terminal (strip text)))"

section \<open>Vocabularies\<close>

text \<open>The module's constant sets, listed in the order of the source.\<close>

definition FEELING_KEYWORDS :: "string list" where
  "FEELING_KEYWORDS =
    [''happy'', ''joy'', ''joyful'', ''glad'', ''excited'', ''content'',
     ''peaceful'', ''sad'', ''upset'', ''angry'', ''frustrated'', ''anxious'',
     ''nervous'', ''worried'', ''calm'', ''relaxed'', ''tired'', ''exhausted'',
     ''stressed'', ''grateful'', ''thankful'', ''lonely'', ''confident'', ''proud'',
     ''hopeful'']"

definition EVENT_KEYWORDS :: "string list" where
  "EVENT_KEYWORDS =
    [''meeting'', ''birthday'', ''anniversary'', ''party'', ''presentation'',
     ''conference'', ''interview'', ''deadline'', ''vacation'', ''trip'',
     ''wedding'', ''graduation'', ''celebration'', ''appointment'', ''game'',
     ''practice'', ''ceremony'']"

definition HEALTH_KEYWORDS :: "string list" where
  "HEALTH_KEYWORDS =
    [''exercise'', ''workout'', ''gym'', ''run'', ''running'', ''walk'',
     ''walking'', ''yoga'', ''meditation'', ''doctor'', ''dentist'', ''medicine'',
     ''medication'', ''pill'', ''headache'', ''stomach'', ''flu'', ''cold'',
     ''fever'', ''pain'', ''ache'', ''injury'', ''therapy'', ''sleep'', ''rest'',
     ''hydrate'', ''hydrated'', ''nutrition'', ''diet'']"

definition SITUATION_KEYWORDS :: "string list" where
  "SITUATION_KEYWORDS =
    [''work'', ''office'', ''project'', ''school'', ''class'', ''lesson'',
     ''family'', ''friends'', ''home'', ''travel'', ''commute'', ''study'',
     ''exam'', ''shopping'', ''errand'', ''cooking'', ''cleaning'', ''house'',
     ''weather'', ''rain'', ''sunny'', ''storm'']"

definition STOP_WORDS :: "string list" where
  "STOP_WORDS =
    [''I'', ''We'', ''My'', ''The'', ''A'', ''An'', ''It'', ''He'', ''She'',
     ''They'', ''Today'', ''Tonight'', ''Morning'', ''Evening'', ''Afternoon'',
     ''Later'', ''Yesterday'', ''Tomorrow'', ''Monday'', ''Tuesday'', ''Wednesday'',
     ''Thursday'', ''Friday'', ''Saturday'', ''Sunday'']"

section \<open>Keyword detection\<close>

text \<open>
  \<^verbatim>\<open>\b\<close> holds at a position when exactly one of the character before it and the character
  after it is a word character (\<^verbatim>\<open>\w\<close>); a missing character (start or end of the string)
  counts as a non-word character. The scan carries whether the character before the
  current position is a word character.
\<close>

definition starts_word :: "string \<Rightarrow> bool" where
  "starts_word s = (case s of [] \<Rightarrow> False | c # _ \<Rightarrow> is_word c)"

definition boundary :: "bool \<Rightarrow> string \<Rightarrow> bool" where
  "boundary prev_word after = (prev_word \<noteq> starts_word after)"

text \<open>
  \<^verbatim>\<open>rf"\b{re.escape(word)}\b"\<close> tried at the current position: the escaped word matches
  itself, character by character.
\<close>

definition keyword_here :: "bool \<Rightarrow> string \<Rightarrow> string \<Rightarrow> bool" where
  "keyword_here prev_word word s =
     (boundary prev_word s \<and> prefix word s \<and>
      boundary (if word = [] then prev_word else is_word (last word)) (drop (length word) s))"

text \<open>\<^verbatim>\<open>re.search\<close>: the pattern is tried at every position, from left to right.\<close>

fun re_search_keyword :: "bool \<Rightarrow> string \<Rightarrow> string \<Rightarrow> bool" where
  "re_search_keyword prev_word word [] = keyword_here prev_word word []"
| "re_search_keyword prev_word word (c # cs) =
     (keyword_here prev_word word (c # cs) \<or> re_search_keyword (is_word c) word cs)"

definition detect_keywords :: "string \<Rightarrow> string list \<Rightarrow> bool" where
  "detect_keywords sentence keywords =
     (let normalized = lower sentence
      in list_ex (\<lambda>word. re_search_keyword False word normalized) keywords)"

section \<open>Name extraction\<close>

text \<open>
  \<^verbatim>\<open>NAME_PATTERN = re.compile(r"\b([A-Z][a-z]+(?:\s[A-Z][a-z]+)*)\b")\<close>.

  \<^verbatim>\<open>[A-Z][a-z]+\<close> at the head of a string: one capital letter and the longest run of
  small letters after it, which must not be empty. A shorter run is never part of a
  match: what follows it is a small letter, where neither \<^verbatim>\<open>\s\<close> nor \<^verbatim>\<open>\b\<close> can match.
\<close>

definition title_word :: "string \<Rightarrow> (string \<times> string) option" where
  "title_word s =
     (case s of
        [] \<Rightarrow> None
      | c # cs \<Rightarrow>
          if is_upper_AZ c \<and> takeWhile is_lower_az cs \<noteq> []
          then Some (c # takeWhile is_lower_az cs, dropWhile is_lower_az cs)
          else None)"

text \<open>
  \<^verbatim>\<open>(?:\s[A-Z][a-z]+)*\<close>, greedy: the iterations matched, each one a whitespace character
  and a word, and the rest of the string.
\<close>

function more_title_words :: "string \<Rightarrow> string list \<times> string" where
  "more_title_words s =
     (case s of
        [] \<Rightarrow> ([], s)
      | sp # cs \<Rightarrow>
          if isspace sp
          then (case title_word cs of
                  None \<Rightarrow> ([], s)
                | Some (w, rest) \<Rightarrow>
                    (case more_title_words rest of (ws, r) \<Rightarrow> ((sp # w) # ws, r)))
          else ([], s))"
  by pat_completeness auto
termination
  by (relation "measure length")
     (auto simp: title_word_def less_Suc_eq_le split: list.splits if_splits
           intro!: le_SucI length_dropWhile_le)

text \<open>
  The pattern after its leading \<^verbatim>\<open>\b\<close>. The closing \<^verbatim>\<open>\b\<close> comes after a small letter, so
  it holds when no word character follows. When it fails after the greedy match, the
  matcher backtracks: it gives up the last iteration of the group, and the closing \<^verbatim>\<open>\b\<close>
  then holds, before the whitespace character of that iteration. With no iteration to
  give up, there is no match at this position. The result is group 1 and the
  unconsumed rest.
\<close>

definition name_match_here :: "string \<Rightarrow> (string \<times> string) option" where
  "name_match_here s =
     (case title_word s of
        None \<Rightarrow> None
      | Some (w, rest) \<Rightarrow>
          (case more_title_words rest of
             (ws, r) \<Rightarrow>
               if \<not> starts_word r then Some (w @ concat ws, r)
               else if ws \<noteq> [] then Some (w @ concat (butlast ws), last ws @ r)
               else None))"

text \<open>
  \<^verbatim>\<open>NAME_PATTERN.finditer(text)\<close> with \<^verbatim>\<open>match.group(1)\<close>: the matches from left to right,
  without overlap; the search goes on where the last match ended, and one character
  further where the pattern does not match.
\<close>

function name_finditer :: "bool \<Rightarrow> string \<Rightarrow> string list" where
  "name_finditer prev_word [] = []"
| "name_finditer prev_word (c # cs) =
     (if boundary prev_word (c # cs)
      then (case name_match_here (c # cs) of
              None \<Rightarrow> name_finditer (is_word c) cs
            | Some (m, rest) \<Rightarrow> m # name_finditer True rest)
      else name_finditer (is_word c) cs)"
  by pat_completeness auto
termination
proof (relation "measure (\<lambda>(prev_word, s). length s)")
  have title: "length rest < length s" if "title_word s = Some (w, rest)" for s w rest
    using that
    by (auto simp: title_word_def le_imp_less_Suc length_dropWhile_le split: list.splits if_splits)
  have more: "length (concat ws) + length r = length s" if "more_title_words s = (ws, r)" for s ws r
    using that
  proof (induction s arbitrary: ws r rule: more_title_words.induct)
    case (1 s)
    show ?case
    proof (cases s)
      case Nil
      with "1.prems" show ?thesis by simp
    next
      case (Cons sp cs)
      show ?thesis
      proof (cases "isspace sp")
        case False
        with "1.prems" Cons show ?thesis by simp
      next
        case True
        show ?thesis
        proof (cases "title_word cs")
          case None
          with "1.prems" Cons True show ?thesis by simp
        next
          case (Some a)
          obtain w rest where a: "a = (w, rest)" by (cases a)
          obtain ws' r' where rec: "more_title_words rest = (ws', r')"
            by (cases "more_title_words rest")
          have ih: "length (concat ws') + length r' = length rest"
            using "1.IH" [OF Cons True _ _ rec] Some a by simp
          have len: "length w + length rest = length cs"
            using Some a
            by (auto simp: title_word_def split: list.splits if_splits)
               (metis length_append takeWhile_dropWhile_id)
          from "1.prems" Cons True Some a rec have "ws = (sp # w) # ws'" "r = r'"
            by simp_all
          with ih len Cons show ?thesis by simp
        qed
      qed
    qed
  qed
  show "wf (measure (\<lambda>(prev_word, s). length s))" by simp
  show "((is_word c, cs), prev_word, c # cs) \<in> measure (\<lambda>(prev_word, s). length s)"
    for prev_word c cs
    by simp
  show "((True, rest), prev_word, c # cs) \<in> measure (\<lambda>(prev_word, s). length s)"
    if "name_match_here (c # cs) = Some x2" and "(m, rest) = x2" for prev_word c cs x2 m rest
  proof -
    from that have "name_match_here (c # cs) = Some (m, rest)" by simp
    then obtain w rest' ws r where
      tw: "title_word (c # cs) = Some (w, rest')" and
      mw: "more_title_words rest' = (ws, r)" and
      res: "rest = r \<or> (ws \<noteq> [] \<and> rest = last ws @ r)"
      by (auto simp: name_match_here_def split: option.splits prod.splits if_splits)
    from more [OF mw] have "length r \<le> length rest'" by simp
    moreover have "length (last ws) + length r \<le> length rest'" if "ws \<noteq> []"
    proof -
      from that have "concat ws = concat (butlast ws) @ last ws"
        by (metis append_butlast_last_id concat.simps(1,2) concat_append append_Nil2)
      with more [OF mw] show ?thesis by simp
    qed
    ultimately have "length rest \<le> length rest'" using res by auto
    with title [OF tw] show ?thesis by simp
  qed
  show "((is_word c, cs), prev_word, c # cs) \<in> measure (\<lambda>(prev_word, s). length s)"
    for prev_word c cs
    by simp
qed

text \<open>
  \<^verbatim>\<open>extract_people\<close>: the set of the matches that are not stop words, then \<^verbatim>\<open>sorted\<close>, which
  orders strings by code points.
\<close>

definition extract_people :: "string \<Rightarrow> string list" where
  "extract_people text =
     (let candidates = set (filter (\<lambda>m. m \<notin> set STOP_WORDS) (name_finditer False text))
      in sorted_list_of_set candidates)"

section \<open>Journal entries\<close>

text \<open>
  A \<^verbatim>\<open>datetime\<close> without time zone, as \<^verbatim>\<open>datetime.now()\<close> returns it, and
  \<^verbatim>\<open>isoformat(timespec="seconds")\<close>, which writes \<^verbatim>\<open>YYYY-MM-DDTHH:MM:SS\<close> and leaves the
  microseconds out.
\<close>

record datetime =
  year :: nat
  month :: nat
  day :: nat
  hour :: nat
  minute :: nat
  second :: nat
  microsecond :: nat

definition digit :: "nat \<Rightarrow> char" where
  "digit d = char_of (48 + d)"

fun decimal :: "nat \<Rightarrow> string" where
  "decimal n = (if n < 10 then [digit n] else decimal (n div 10) @ [digit (n mod 10)])"

definition zero_pad :: "nat \<Rightarrow> nat \<Rightarrow> string" where
  "zero_pad width n = replicate (width - length (decimal n)) (CHR ''0'') @ decimal n"

definition isoformat_seconds :: "datetime \<Rightarrow> string" where
  "isoformat_seconds d =
     zero_pad 4 (year d) @ ''-'' @ zero_pad 2 (month d) @ ''-'' @ zero_pad 2 (day d) @ ''T'' @
     zero_pad 2 (hour d) @ '':'' @ zero_pad 2 (minute d) @ '':'' @ zero_pad 2 (second d)"

record JournalEntry =
  raw_entry :: string
  timestamp :: string
  feelings :: "string list"
  events :: "string list"
  health :: "string list"
  situations :: "string list"
  people :: "string list"

text \<open>
  \<^verbatim>\<open>JournalEntry.from_text\<close>. The reading of the clock, \<^verbatim>\<open>datetime.now()\<close>, is the argument
  \<open>now\<close>; it is used when no timestamp is given.
\<close>

definition from_text :: "datetime \<Rightarrow> string \<Rightarrow> datetime option \<Rightarrow> JournalEntry" where
  "from_text now entry_text timestamp_arg =
     (let stamp = (case timestamp_arg of None \<Rightarrow> now | Some t \<Rightarrow> t);
          sentences = sentence_split entry_text;
          feelings_found = filter (\<lambda>s. detect_keywords s FEELING_KEYWORDS) sentences;
          events_found = filter (\<lambda>s. detect_keywords s EVENT_KEYWORDS) sentences;
          health_found = filter (\<lambda>s. detect_keywords s HEALTH_KEYWORDS) sentences;
          categorized_sentences = set (feelings_found @ events_found @ health_found);
          situations_found =
            filter (\<lambda>s. s \<notin> categorized_sentences \<and> detect_keywords s SITUATION_KEYWORDS) sentences;
          people_found = extract_people entry_text
      in \<lparr>raw_entry = strip entry_text,
          timestamp = isoformat_seconds stamp,
          feelings = feelings_found,
          events = events_found,
          health = health_found,
          situations = situations_found,
          people = people_found\<rparr>)"

section \<open>Properties stated by the specification\<close>

text \<open>
  A whole-word, case-insensitive occurrence of a vocabulary word in a sentence, by
  positions: the characters from position \<open>i\<close> on, lowered, are the word, and a word
  boundary lies at both ends of the occurrence.
\<close>

definition is_boundary_at :: "string \<Rightarrow> nat \<Rightarrow> bool" where
  "is_boundary_at s i =
     ((0 < i \<and> i \<le> length s \<and> is_word (s ! (i - 1))) \<noteq> (i < length s \<and> is_word (s ! i)))"

definition whole_word_at :: "string \<Rightarrow> string \<Rightarrow> nat \<Rightarrow> bool" where
  "whole_word_at s w i =
     (i + length w \<le> length s \<and> lower (take (length w) (drop i s)) = w \<and>
      is_boundary_at s i \<and> is_boundary_at s (i + length w))"

definition whole_word_match :: "string \<Rightarrow> string list \<Rightarrow> bool" where
  "whole_word_match s ws = (\<exists>w \<in> set ws. \<exists>i \<in> {..length s}. whole_word_at s w i)"

text \<open>
  Whitespace normalisation at the split boundaries: every run of whitespace that comes
  right after \<^verbatim>\<open>.\<close>, \<^verbatim>\<open>!\<close> or \<^verbatim>\<open>?\<close> becomes one space; nothing else changes.
\<close>

function normalize_boundaries :: "string \<Rightarrow> string" where
  "normalize_boundaries [] = []"
| "normalize_boundaries (c # cs) =
     (if is_terminal c \<and> cs \<noteq> [] \<and> isspace (hd cs)
      then c # CHR '' '' # normalize_boundaries (dropWhile isspace cs)
      else c # normalize_boundaries cs)"
  by pat_completeness auto
termination
  by (relation "measure length") (auto simp: le_imp_less_Suc length_dropWhile_le)

text \<open>
  A Titlecase word: one capital letter and at least one small letter after it, and
  nothing else. A run of such words, each but the first after one whitespace character.
\<close>

definition titlecase_word :: "string \<Rightarrow> bool" where
  "titlecase_word w =
     (case w of [] \<Rightarrow> False | c # cs \<Rightarrow> is_upper_AZ c \<and> cs \<noteq> [] \<and> list_all is_lower_az cs)"

definition titlecase_run :: "string \<Rightarrow> (char \<times> string) list \<Rightarrow> string" where
  "titlecase_run w sws = w @ concat (map (\<lambda>(sp, v). sp # v) sws)"

definition titlecase_words :: "string \<Rightarrow> (char \<times> string) list \<Rightarrow> bool" where
  "titlecase_words w sws =
     (titlecase_word w \<and> list_all (\<lambda>(sp, v). isspace sp \<and> titlecase_word v) sws)"

text \<open>
  A string has a Titlecase start when a capital letter in it is followed by a small
  letter; the name pattern can only begin to match at such a place.
\<close>

fun capital_then_small :: "string \<Rightarrow> bool" where
  "capital_then_small [] = False"
| "capital_then_small [c] = False"
| "capital_then_small (c # d # cs) =
     ((is_upper_AZ c \<and> is_lower_az d) \<or> capital_then_small (d # cs))"

text \<open>
  A string has a lone capital when one of its whitespace-separated tokens is a single
  capital letter. The flag says whether a token starts at the head of the string.
\<close>

fun lone_capital :: "bool \<Rightarrow> string \<Rightarrow> bool" where
  "lone_capital token_start [] = False"
| "lone_capital token_start (c # cs) =
     ((token_start \<and> is_upper_AZ c \<and> (case cs of [] \<Rightarrow> True | d # _ \<Rightarrow> isspace d)) \<or>
      lone_capital (isspace c) cs)"




section \<open>Character classes on the characters of the examples\<close>

lemma isspace_chars:
  "\<not> isspace CHR ''A''" "\<not> isspace CHR ''B''" "\<not> isspace CHR ''C''"
  "\<not> isspace CHR ''D''" "\<not> isspace CHR ''E''" "\<not> isspace CHR ''F''"
  "\<not> isspace CHR ''G''" "\<not> isspace CHR ''H''" "\<not> isspace CHR ''I''"
  "\<not> isspace CHR ''J''" "\<not> isspace CHR ''K''" "\<not> isspace CHR ''L''"
  "\<not> isspace CHR ''M''" "\<not> isspace CHR ''N''" "\<not> isspace CHR ''O''"
  "\<not> isspace CHR ''P''" "\<not> isspace CHR ''Q''" "\<not> isspace CHR ''R''"
  "\<not> isspace CHR ''S''" "\<not> isspace CHR ''T''" "\<not> isspace CHR ''U''"
  "\<not> isspace CHR ''V''" "\<not> isspace CHR ''W''" "\<not> isspace CHR ''X''"
  "\<not> isspace CHR ''Y''" "\<not> isspace CHR ''Z''" "\<not> isspace CHR ''a''"
  "\<not> isspace CHR ''b''" "\<not> isspace CHR ''c''" "\<not> isspace CHR ''d''"
  "\<not> isspace CHR ''e''" "\<not> isspace CHR ''f''" "\<not> isspace CHR ''g''"
  "\<not> isspace CHR ''h''" "\<not> isspace CHR ''i''" "\<not> isspace CHR ''j''"
  "\<not> isspace CHR ''k''" "\<not> isspace CHR ''l''" "\<not> isspace CHR ''m''"
  "\<not> isspace CHR ''n''" "\<not> isspace CHR ''o''" "\<not> isspace CHR ''p''"
  "\<not> isspace CHR ''q''" "\<not> isspace CHR ''r''" "\<not> isspace CHR ''s''"
  "\<not> isspace CHR ''t''" "\<not> isspace CHR ''u''" "\<not> isspace CHR ''v''"
  "\<not> isspace CHR ''w''" "\<not> isspace CHR ''x''" "\<not> isspace CHR ''y''"
  "\<not> isspace CHR ''z''" "\<not> isspace CHR ''0''" "\<not> isspace CHR ''1''"
  "\<not> isspace CHR ''2''" "\<not> isspace CHR ''3''" "\<not> isspace CHR ''4''"
  "\<not> isspace CHR ''5''" "\<not> isspace CHR ''6''" "\<not> isspace CHR ''7''"
  "\<not> isspace CHR ''8''" "\<not> isspace CHR ''9''" "isspace CHR '' ''"
  "\<not> isspace CHR ''.''" "\<not> isspace CHR '',''" "\<not> isspace CHR ''!''"
  "\<not> isspace CHR ''?''"
  by (simp_all add: isspace_def code_def)

lemma is_word_chars:
  "is_word CHR ''A''" "is_word CHR ''B''" "is_word CHR ''C''" "is_word CHR ''D''"
  "is_word CHR ''E''" "is_word CHR ''F''" "is_word CHR ''G''" "is_word CHR ''H''"
  "is_word CHR ''I''" "is_word CHR ''J''" "is_word CHR ''K''" "is_word CHR ''L''"
  "is_word CHR ''M''" "is_word CHR ''N''" "is_word CHR ''O''" "is_word CHR ''P''"
  "is_word CHR ''Q''" "is_word CHR ''R''" "is_word CHR ''S''" "is_word CHR ''T''"
  "is_word CHR ''U''" "is_word CHR ''V''" "is_word CHR ''W''" "is_word CHR ''X''"
  "is_word CHR ''Y''" "is_word CHR ''Z''" "is_word CHR ''a''" "is_word CHR ''b''"
  "is_word CHR ''c''" "is_word CHR ''d''" "is_word CHR ''e''" "is_word CHR ''f''"
  "is_word CHR ''g''" "is_word CHR ''h''" "is_word CHR ''i''" "is_word CHR ''j''"
  "is_word CHR ''k''" "is_word CHR ''l''" "is_word CHR ''m''" "is_word CHR ''n''"
  "is_word CHR ''o''" "is_word CHR ''p''" "is_word CHR ''q''" "is_word CHR ''r''"
  "is_word CHR ''s''" "is_word CHR ''t''" "is_word CHR ''u''" "is_word CHR ''v''"
  "is_word CHR ''w''" "is_word CHR ''x''" "is_word CHR ''y''" "is_word CHR ''z''"
  "is_word CHR ''0''" "is_word CHR ''1''" "is_word CHR ''2''" "is_word CHR ''3''"
  "is_word CHR ''4''" "is_word CHR ''5''" "is_word CHR ''6''" "is_word CHR ''7''"
  "is_word CHR ''8''" "is_word CHR ''9''" "\<not> is_word CHR '' ''" "\<not> is_word CHR ''.''"
  "\<not> is_word CHR '',''" "\<not> is_word CHR ''!''" "\<not> is_word CHR ''?''"
  by (simp_all add: is_word_def is_upper_AZ_def is_lower_az_def code_def)

lemma is_upper_AZ_chars:
  "is_upper_AZ CHR ''A''" "is_upper_AZ CHR ''B''" "is_upper_AZ CHR ''C''"
  "is_upper_AZ CHR ''D''" "is_upper_AZ CHR ''E''" "is_upper_AZ CHR ''F''"
  "is_upper_AZ CHR ''G''" "is_upper_AZ CHR ''H''" "is_upper_AZ CHR ''I''"
  "is_upper_AZ CHR ''J''" "is_upper_AZ CHR ''K''" "is_upper_AZ CHR ''L''"
  "is_upper_AZ CHR ''M''" "is_upper_AZ CHR ''N''" "is_upper_AZ CHR ''O''"
  "is_upper_AZ CHR ''P''" "is_upper_AZ CHR ''Q''" "is_upper_AZ CHR ''R''"
  "is_upper_AZ CHR ''S''" "is_upper_AZ CHR ''T''" "is_upper_AZ CHR ''U''"
  "is_upper_AZ CHR ''V''" "is_upper_AZ CHR ''W''" "is_upper_AZ CHR ''X''"
  "is_upper_AZ CHR ''Y''" "is_upper_AZ CHR ''Z''" "\<not> is_upper_AZ CHR ''a''"
  "\<not> is_upper_AZ CHR ''b''" "\<not> is_upper_AZ CHR ''c''" "\<not> is_upper_AZ CHR ''d''"
  "\<not> is_upper_AZ CHR ''e''" "\<not> is_upper_AZ CHR ''f''" "\<not> is_upper_AZ CHR ''g''"
  "\<not> is_upper_AZ CHR ''h''" "\<not> is_upper_AZ CHR ''i''" "\<not> is_upper_AZ CHR ''j''"
  "\<not> is_upper_AZ CHR ''k''" "\<not> is_upper_AZ CHR ''l''" "\<not> is_upper_AZ CHR ''m''"
  "\<not> is_upper_AZ CHR ''n''" "\<not> is_upper_AZ CHR ''o''" "\<not> is_upper_AZ CHR ''p''"
  "\<not> is_upper_AZ CHR ''q''" "\<not> is_upper_AZ CHR ''r''" "\<not> is_upper_AZ CHR ''s''"
  "\<not> is_upper_AZ CHR ''t''" "\<not> is_upper_AZ CHR ''u''" "\<not> is_upper_AZ CHR ''v''"
  "\<not> is_upper_AZ CHR ''w''" "\<not> is_upper_AZ CHR ''x''" "\<not> is_upper_AZ CHR ''y''"
  "\<not> is_upper_AZ CHR ''z''" "\<not> is_upper_AZ CHR ''0''" "\<not> is_upper_AZ CHR ''1''"
  "\<not> is_upper_AZ CHR ''2''" "\<not> is_upper_AZ CHR ''3''" "\<not> is_upper_AZ CHR ''4''"
  "\<not> is_upper_AZ CHR ''5''" "\<not> is_upper_AZ CHR ''6''" "\<not> is_upper_AZ CHR ''7''"
  "\<not> is_upper_AZ CHR ''8''" "\<not> is_upper_AZ CHR ''9''" "\<not> is_upper_AZ CHR '' ''"
  "\<not> is_upper_AZ CHR ''.''" "\<not> is_upper_AZ CHR '',''" "\<not> is_upper_AZ CHR ''!''"
  "\<not> is_upper_AZ CHR ''?''"
  by (simp_all add: is_upper_AZ_def code_def)

lemma is_lower_az_chars:
  "\<not> is_lower_az CHR ''A''" "\<not> is_lower_az CHR ''B''" "\<not> is_lower_az CHR ''C''"
  "\<not> is_lower_az CHR ''D''" "\<not> is_lower_az CHR ''E''" "\<not> is_lower_az CHR ''F''"
  "\<not> is_lower_az CHR ''G''" "\<not> is_lower_az CHR ''H''" "\<not> is_lower_az CHR ''I''"
  "\<not> is_lower_az CHR ''J''" "\<not> is_lower_az CHR ''K''" "\<not> is_lower_az CHR ''L''"
  "\<not> is_lower_az CHR ''M''" "\<not> is_lower_az CHR ''N''" "\<not> is_lower_az CHR ''O''"
  "\<not> is_lower_az CHR ''P''" "\<not> is_lower_az CHR ''Q''" "\<not> is_lower_az CHR ''R''"
  "\<not> is_lower_az CHR ''S''" "\<not> is_lower_az CHR ''T''" "\<not> is_lower_az CHR ''U''"
  "\<not> is_lower_az CHR ''V''" "\<not> is_lower_az CHR ''W''" "\<not> is_lower_az CHR ''X''"
  "\<not> is_lower_az CHR ''Y''" "\<not> is_lower_az CHR ''Z''" "is_lower_az CHR ''a''"
  "is_lower_az CHR ''b''" "is_lower_az CHR ''c''" "is_lower_az CHR ''d''"
  "is_lower_az CHR ''e''" "is_lower_az CHR ''f''" "is_lower_az CHR ''g''"
  "is_lower_az CHR ''h''" "is_lower_az CHR ''i''" "is_lower_az CHR ''j''"
  "is_lower_az CHR ''k''" "is_lower_az CHR ''l''" "is_lower_az CHR ''m''"
  "is_lower_az CHR ''n''" "is_lower_az CHR ''o''" "is_lower_az CHR ''p''"
  "is_lower_az CHR ''q''" "is_lower_az CHR ''r''" "is_lower_az CHR ''s''"
  "is_lower_az CHR ''t''" "is_lower_az CHR ''u''" "is_lower_az CHR ''v''"
  "is_lower_az CHR ''w''" "is_lower_az CHR ''x''" "is_lower_az CHR ''y''"
  "is_lower_az CHR ''z''" "\<not> is_lower_az CHR ''0''" "\<not> is_lower_az CHR ''1''"
  "\<not> is_lower_az CHR ''2''" "\<not> is_lower_az CHR ''3''" "\<not> is_lower_az CHR ''4''"
  "\<not> is_lower_az CHR ''5''" "\<not> is_lower_az CHR ''6''" "\<not> is_lower_az CHR ''7''"
  "\<not> is_lower_az CHR ''8''" "\<not> is_lower_az CHR ''9''" "\<not> is_lower_az CHR '' ''"
  "\<not> is_lower_az CHR ''.''" "\<not> is_lower_az CHR '',''" "\<not> is_lower_az CHR ''!''"
  "\<not> is_lower_az CHR ''?''"
  by (simp_all add: is_lower_az_def code_def)

lemma is_terminal_chars:
  "\<not> is_terminal CHR ''A''" "\<not> is_terminal CHR ''B''" "\<not> is_terminal CHR ''C''"
  "\<not> is_terminal CHR ''D''" "\<not> is_terminal CHR ''E''" "\<not> is_terminal CHR ''F''"
  "\<not> is_terminal CHR ''G''" "\<not> is_terminal CHR ''H''" "\<not> is_terminal CHR ''I''"
  "\<not> is_terminal CHR ''J''" "\<not> is_terminal CHR ''K''" "\<not> is_terminal CHR ''L''"
  "\<not> is_terminal CHR ''M''" "\<not> is_terminal CHR ''N''" "\<not> is_terminal CHR ''O''"
  "\<not> is_terminal CHR ''P''" "\<not> is_terminal CHR ''Q''" "\<not> is_terminal CHR ''R''"
  "\<not> is_terminal CHR ''S''" "\<not> is_terminal CHR ''T''" "\<not> is_terminal CHR ''U''"
  "\<not> is_terminal CHR ''V''" "\<not> is_terminal CHR ''W''" "\<not> is_terminal CHR ''X''"
  "\<not> is_terminal CHR ''Y''" "\<not> is_terminal CHR ''Z''" "\<not> is_terminal CHR ''a''"
  "\<not> is_terminal CHR ''b''" "\<not> is_terminal CHR ''c''" "\<not> is_terminal CHR ''d''"
  "\<not> is_terminal CHR ''e''" "\<not> is_terminal CHR ''f''" "\<not> is_terminal CHR ''g''"
  "\<not> is_terminal CHR ''h''" "\<not> is_terminal CHR ''i''" "\<not> is_terminal CHR ''j''"
  "\<not> is_terminal CHR ''k''" "\<not> is_terminal CHR ''l''" "\<not> is_terminal CHR ''m''"
  "\<not> is_terminal CHR ''n''" "\<not> is_terminal CHR ''o''" "\<not> is_terminal CHR ''p''"
  "\<not> is_terminal CHR ''q''" "\<not> is_terminal CHR ''r''" "\<not> is_terminal CHR ''s''"
  "\<not> is_terminal CHR ''t''" "\<not> is_terminal CHR ''u''" "\<not> is_terminal CHR ''v''"
  "\<not> is_terminal CHR ''w''" "\<not> is_terminal CHR ''x''" "\<not> is_terminal CHR ''y''"
  "\<not> is_terminal CHR ''z''" "\<not> is_terminal CHR ''0''" "\<not> is_terminal CHR ''1''"
  "\<not> is_terminal CHR ''2''" "\<not> is_terminal CHR ''3''" "\<not> is_terminal CHR ''4''"
  "\<not> is_terminal CHR ''5''" "\<not> is_terminal CHR ''6''" "\<not> is_terminal CHR ''7''"
  "\<not> is_terminal CHR ''8''" "\<not> is_terminal CHR ''9''" "\<not> is_terminal CHR '' ''"
  "is_terminal CHR ''.''" "\<not> is_terminal CHR '',''" "is_terminal CHR ''!''"
  "is_terminal CHR ''?''"
  by (simp_all add: is_terminal_def)

lemma lower_char_chars:
  "lower_char CHR ''A'' = CHR ''a''" "lower_char CHR ''B'' = CHR ''b''"
  "lower_char CHR ''C'' = CHR ''c''" "lower_char CHR ''D'' = CHR ''d''"
  "lower_char CHR ''E'' = CHR ''e''" "lower_char CHR ''F'' = CHR ''f''"
  "lower_char CHR ''G'' = CHR ''g''" "lower_char CHR ''H'' = CHR ''h''"
  "lower_char CHR ''I'' = CHR ''i''" "lower_char CHR ''J'' = CHR ''j''"
  "lower_char CHR ''K'' = CHR ''k''" "lower_char CHR ''L'' = CHR ''l''"
  "lower_char CHR ''M'' = CHR ''m''" "lower_char CHR ''N'' = CHR ''n''"
  "lower_char CHR ''O'' = CHR ''o''" "lower_char CHR ''P'' = CHR ''p''"
  "lower_char CHR ''Q'' = CHR ''q''" "lower_char CHR ''R'' = CHR ''r''"
  "lower_char CHR ''S'' = CHR ''s''" "lower_char CHR ''T'' = CHR ''t''"
  "lower_char CHR ''U'' = CHR ''u''" "lower_char CHR ''V'' = CHR ''v''"
  "lower_char CHR ''W'' = CHR ''w''" "lower_char CHR ''X'' = CHR ''x''"
  "lower_char CHR ''Y'' = CHR ''y''" "lower_char CHR ''Z'' = CHR ''z''"
  "lower_char CHR ''a'' = CHR ''a''" "lower_char CHR ''b'' = CHR ''b''"
  "lower_char CHR ''c'' = CHR ''c''" "lower_char CHR ''d'' = CHR ''d''"
  "lower_char CHR ''e'' = CHR ''e''" "lower_char CHR ''f'' = CHR ''f''"
  "lower_char CHR ''g'' = CHR ''g''" "lower_char CHR ''h'' = CHR ''h''"
  "lower_char CHR ''i'' = CHR ''i''" "lower_char CHR ''j'' = CHR ''j''"
  "lower_char CHR ''k'' = CHR ''k''" "lower_char CHR ''l'' = CHR ''l''"
  "lower_char CHR ''m'' = CHR ''m''" "lower_char CHR ''n'' = CHR ''n''"
  "lower_char CHR ''o'' = CHR ''o''" "lower_char CHR ''p'' = CHR ''p''"
  "lower_char CHR ''q'' = CHR ''q''" "lower_char CHR ''r'' = CHR ''r''"
  "lower_char CHR ''s'' = CHR ''s''" "lower_char CHR ''t'' = CHR ''t''"
  "lower_char CHR ''u'' = CHR ''u''" "lower_char CHR ''v'' = CHR ''v''"
  "lower_char CHR ''w'' = CHR ''w''" "lower_char CHR ''x'' = CHR ''x''"
  "lower_char CHR ''y'' = CHR ''y''" "lower_char CHR ''z'' = CHR ''z''"
  "lower_char CHR ''0'' = CHR ''0''" "lower_char CHR ''1'' = CHR ''1''"
  "lower_char CHR ''2'' = CHR ''2''" "lower_char CHR ''3'' = CHR ''3''"
  "lower_char CHR ''4'' = CHR ''4''" "lower_char CHR ''5'' = CHR ''5''"
  "lower_char CHR ''6'' = CHR ''6''" "lower_char CHR ''7'' = CHR ''7''"
  "lower_char CHR ''8'' = CHR ''8''" "lower_char CHR ''9'' = CHR ''9''"
  "lower_char CHR '' '' = CHR '' ''" "lower_char CHR ''.'' = CHR ''.''"
  "lower_char CHR '','' = CHR '',''" "lower_char CHR ''!'' = CHR ''!''"
  "lower_char CHR ''?'' = CHR ''?''"
  by (simp_all add: lower_char_def is_upper_AZ_def code_def char_of_eq_iff)

lemmas char_tables =
  isspace_chars is_word_chars is_upper_AZ_chars is_lower_az_chars is_terminal_chars
  lower_char_chars

section \<open>Stripping\<close>

lemma dropWhile_id: "s \<noteq> [] \<Longrightarrow> \<not> P (hd s) \<Longrightarrow> dropWhile P s = s"
  by (cases s) simp_all

lemma last_dropWhile: "dropWhile P s \<noteq> [] \<Longrightarrow> last (dropWhile P s) = last s"
  by (induction s) (auto split: if_splits)

lemma strip_eq_Nil: "strip s = [] \<longleftrightarrow> (\<forall>c \<in> set s. isspace c)"
proof -
  have "strip s = [] \<longleftrightarrow> (\<forall>c \<in> set (dropWhile isspace s). isspace c)"
    by (simp add: strip_def)
  also have "\<dots> \<longleftrightarrow> dropWhile isspace s = []"
  proof
    assume all: "\<forall>c \<in> set (dropWhile isspace s). isspace c"
    show "dropWhile isspace s = []"
    proof (rule ccontr)
      assume ne: "dropWhile isspace s \<noteq> []"
      then have "\<not> isspace (hd (dropWhile isspace s))" by (rule hd_dropWhile)
      moreover from ne have "hd (dropWhile isspace s) \<in> set (dropWhile isspace s)" by simp
      ultimately show False using all by blast
    qed
  qed (auto dest: set_dropWhileD)
  finally show ?thesis by simp
qed

lemma strip_ends:
  assumes "strip s \<noteq> []"
  shows "\<not> isspace (hd (strip s))" and "\<not> isspace (last (strip s))"
proof -
  let ?d = "dropWhile isspace s"
  let ?e = "dropWhile isspace (rev ?d)"
  from assms have e: "?e \<noteq> []" by (simp add: strip_def)
  have "?d = [] \<Longrightarrow> ?e = []" by (simp only: rev.simps dropWhile.simps)
  with e have d: "?d \<noteq> []" by blast
  have "hd (strip s) = last ?e" using e by (simp add: strip_def hd_rev)
  also have "\<dots> = last (rev ?d)" using e by (rule last_dropWhile)
  also have "\<dots> = hd ?d" using d by (simp add: last_rev)
  finally show "\<not> isspace (hd (strip s))" using hd_dropWhile [OF d] by simp
  have "last (strip s) = hd ?e" using e by (simp add: strip_def last_rev)
  then show "\<not> isspace (last (strip s))" using hd_dropWhile [OF e] by simp
qed

lemma strip_trimmed: "s \<noteq> [] \<Longrightarrow> \<not> isspace (hd s) \<Longrightarrow> \<not> isspace (last s) \<Longrightarrow> strip s = s"
  by (simp add: strip_def dropWhile_id hd_rev)

lemma strip_idem: "strip (strip s) = strip s"
proof (cases "strip s = []")
  case True
  have "strip [] = []" by (simp add: strip_def)
  with True show ?thesis by (simp only:)
next
  case False
  then show ?thesis using strip_ends [OF False] by (simp add: strip_trimmed)
qed

lemma set_strip: "set (strip s) \<subseteq> set s"
  by (metis strip_def set_dropWhileD set_rev subsetI)

section \<open>The sentence splitter\<close>

lemma re_split_terminal_not_Nil: "re_split_terminal s \<noteq> []"
  by (induction s rule: re_split_terminal.induct) (auto split: list.splits)

lemma join_Cons: "join sep (p # ps) = (if ps = [] then p else p @ sep @ join sep ps)"
  by (cases ps) simp_all

lemma join_re_split_terminal: "join '' '' (re_split_terminal s) = normalize_boundaries s"
proof (induction s rule: re_split_terminal.induct)
  case 1
  show ?case by simp
next
  case (2 c cs)
  show ?case
  proof (cases "is_terminal c \<and> cs \<noteq> [] \<and> isspace (hd cs)")
    case True
    with 2 show ?thesis by (simp add: join_Cons re_split_terminal_not_Nil)
  next
    case False
    obtain p ps where ps: "re_split_terminal cs = p # ps"
      using re_split_terminal_not_Nil [of cs] by (cases "re_split_terminal cs") auto
    from False 2 have "join '' '' (re_split_terminal cs) = normalize_boundaries cs" by blast
    with False ps show ?thesis by (auto simp add: join_Cons)
  qed
qed

lemma re_split_terminal_no_terminal:
  "\<forall>c \<in> set s. \<not> is_terminal c \<Longrightarrow> re_split_terminal s = [s]"
  by (induction s) auto

lemma is_terminal_not_space: "is_terminal c \<Longrightarrow> \<not> isspace c"
  by (auto simp: is_terminal_def isspace_def code_def)

lemma re_split_terminal_pieces:
  "s \<noteq> [] \<Longrightarrow> \<not> isspace (last s) \<Longrightarrow>
   \<exists>p ps. re_split_terminal s = p # ps \<and> p \<noteq> [] \<and> hd p = hd s \<and> \<not> isspace (last p) \<and>
          (\<forall>q \<in> set ps. q \<noteq> [] \<and> \<not> isspace (hd q) \<and> \<not> isspace (last q))"
proof (induction s rule: re_split_terminal.induct)
  case 1
  then show ?case by simp
next
  case (2 c cs)
  show ?case
  proof (cases "is_terminal c \<and> cs \<noteq> [] \<and> isspace (hd cs)")
    case True
    let ?r = "dropWhile isspace cs"
    from True "2.prems" have lastcs: "\<not> isspace (last cs)" by simp
    from True have "last cs \<in> set cs" by simp
    with lastcs have r: "?r \<noteq> []" by auto
    then have lastr: "\<not> isspace (last ?r)" using lastcs by (simp add: last_dropWhile)
    from "2.IH"(1) [OF True r lastr] obtain p ps where
      ps: "re_split_terminal ?r = p # ps" "p \<noteq> []" "hd p = hd ?r" "\<not> isspace (last p)"
        "\<forall>q \<in> set ps. q \<noteq> [] \<and> \<not> isspace (hd q) \<and> \<not> isspace (last q)"
      by blast
    have "\<not> isspace (hd ?r)" using r by (rule hd_dropWhile)
    with ps True show ?thesis by (auto simp: is_terminal_not_space)
  next
    case False
    show ?thesis
    proof (cases cs)
      case Nil
      with False "2.prems" show ?thesis by simp
    next
      case (Cons d ds)
      with "2.prems" have "cs \<noteq> []" "\<not> isspace (last cs)" by simp_all
      from "2.IH"(2) [OF False this] obtain p ps where
        ps: "re_split_terminal cs = p # ps" "p \<noteq> []" "\<not> isspace (last p)"
          "\<forall>q \<in> set ps. q \<noteq> [] \<and> \<not> isspace (hd q) \<and> \<not> isspace (last q)"
        by blast
      with False show ?thesis by auto
    qed
  qed
qed

lemma sentence_split_stripped:
  assumes "strip text \<noteq> []"
  shows "sentence_split text = re_split_terminal (strip text)"
proof -
  from strip_ends [OF assms] re_split_terminal_pieces [OF assms]
  have good: "\<forall>q \<in> set (re_split_terminal (strip text)). q \<noteq> [] \<and> \<not> isspace (hd q) \<and> \<not> isspace (last q)"
    by auto
  then have keep: "\<forall>q \<in> set (re_split_terminal (strip text)). strip q = q"
    by (simp add: strip_trimmed)
  then have "filter (\<lambda>q. strip q \<noteq> []) (re_split_terminal (strip text)) = re_split_terminal (strip text)"
    using good by (simp add: filter_id_conv)
  with keep show ?thesis by (simp add: sentence_split_def map_idI)
qed

lemma sentence_split_blank:
  assumes "strip text = []"
  shows "sentence_split text = []"
proof -
  have "strip [] = []" by (simp add: strip_def)
  then show ?thesis unfolding sentence_split_def assms by simp
qed

lemma filter_not_dropWhile: "filter (\<lambda>c. \<not> P c) (dropWhile P xs) = filter (\<lambda>c. \<not> P c) xs"
  by (induction xs) simp_all

lemma filter_not_space_strip:
  "filter (\<lambda>c. \<not> isspace c) (strip s) = filter (\<lambda>c. \<not> isspace c) s"
proof -
  have "filter (\<lambda>c. \<not> isspace c) (strip s) =
      rev (filter (\<lambda>c. \<not> isspace c) (dropWhile isspace (rev (dropWhile isspace s))))"
    by (simp add: strip_def rev_filter)
  also have "\<dots> = rev (filter (\<lambda>c. \<not> isspace c) (rev (dropWhile isspace s)))"
    by (simp only: filter_not_dropWhile)
  also have "\<dots> = filter (\<lambda>c. \<not> isspace c) (dropWhile isspace s)"
    by (simp add: rev_filter [symmetric])
  finally show ?thesis by (simp only: filter_not_dropWhile)
qed

lemma filter_not_space_normalize:
  "filter (\<lambda>c. \<not> isspace c) (normalize_boundaries s) = filter (\<lambda>c. \<not> isspace c) s"
proof (induction s rule: normalize_boundaries.induct)
  case 1
  show ?case by simp
next
  case (2 c cs)
  have space: "isspace CHR '' ''" by (simp add: isspace_def code_def)
  show ?case
  proof (cases "is_terminal c \<and> cs \<noteq> [] \<and> isspace (hd cs)")
    case True
    with "2.IH"(1) have "filter (\<lambda>c. \<not> isspace c) (normalize_boundaries (dropWhile isspace cs)) =
        filter (\<lambda>c. \<not> isspace c) cs"
      by (simp add: filter_not_dropWhile)
    with True space show ?thesis by simp
  next
    case False
    with "2.IH"(2) show ?thesis by auto
  qed
qed

section \<open>Name matching\<close>

lemma takeWhile_not_Nil: "takeWhile P xs \<noteq> [] \<longleftrightarrow> xs \<noteq> [] \<and> P (hd xs)"
  by (cases xs) simp_all

lemma title_word_None:
  "\<not> capital_then_small s \<Longrightarrow> title_word s = None"
  by (cases s rule: capital_then_small.cases) (simp_all add: title_word_def)

lemma capital_then_small_tl: "\<not> capital_then_small (c # cs) \<Longrightarrow> \<not> capital_then_small cs"
  by (cases cs) simp_all

lemma name_finditer_none:
  "\<not> capital_then_small s \<Longrightarrow> name_finditer prev_word s = []"
proof (induction s arbitrary: prev_word)
  case Nil
  show ?case by simp
next
  case (Cons c cs)
  from Cons.prems have "name_match_here (c # cs) = None"
    by (simp add: name_match_here_def title_word_None)
  moreover from Cons have "name_finditer (is_word c) cs = []"
    by (simp add: capital_then_small_tl)
  ultimately show ?case by simp
qed

lemma no_capital_no_start:
  "\<forall>c \<in> set s. \<not> is_upper_AZ c \<Longrightarrow> \<not> capital_then_small s"
  by (induction s rule: capital_then_small.induct) simp_all

lemma isspace_not_upper: "isspace c \<Longrightarrow> \<not> is_upper_AZ c"
  by (auto simp: isspace_def is_upper_AZ_def)

lemma extract_people_blank:
  assumes "\<forall>c \<in> set text. isspace c"
  shows "extract_people text = []"
proof -
  from assms have "\<forall>c \<in> set text. \<not> is_upper_AZ c" by (blast dest: isspace_not_upper)
  then have "name_finditer False text = []"
    by (simp add: no_capital_no_start name_finditer_none)
  then show ?thesis by (simp add: extract_people_def)
qed

section \<open>Fields of a constructed entry\<close>

lemma from_text_fields:
  "raw_entry (from_text now text ts) = strip text"
  "timestamp (from_text now text ts) = isoformat_seconds (case ts of None \<Rightarrow> now | Some t \<Rightarrow> t)"
  "feelings (from_text now text ts) =
     filter (\<lambda>s. detect_keywords s FEELING_KEYWORDS) (sentence_split text)"
  "events (from_text now text ts) =
     filter (\<lambda>s. detect_keywords s EVENT_KEYWORDS) (sentence_split text)"
  "health (from_text now text ts) =
     filter (\<lambda>s. detect_keywords s HEALTH_KEYWORDS) (sentence_split text)"
  "situations (from_text now text ts) =
     filter (\<lambda>s. \<not> (detect_keywords s FEELING_KEYWORDS \<or> detect_keywords s EVENT_KEYWORDS \<or>
                      detect_keywords s HEALTH_KEYWORDS) \<and>
                 detect_keywords s SITUATION_KEYWORDS) (sentence_split text)"
  "people (from_text now text ts) = extract_people text"
  by (auto simp: from_text_def Let_def intro: filter_cong)

section \<open>Evaluating the keyword search on a given sentence\<close>

lemma prefix_Cons_if: "prefix (a # w) (c # cs) = (if a = c then prefix w cs else False)"
  by simp

lemma keyword_here_if:
  "keyword_here prev_word w s =
     (if prefix w s
      then boundary prev_word s \<and>
           boundary (if w = [] then prev_word else is_word (last w)) (drop (length w) s)
      else False)"
  by (simp add: keyword_here_def)

lemmas keyword_eval = keyword_here_if prefix_Cons_if boundary_def starts_word_def

lemma detect_keywordsI:
  "re_search_keyword False w (lower s) \<Longrightarrow> w \<in> set ws \<Longrightarrow> detect_keywords s ws"
  by (auto simp: detect_keywords_def list_ex_iff)

section \<open>Claims\<close>

text \<open>
  C3. For every input text, a sentence that is in the feelings, the events or the health
  list of the entry is not in its situations list.
\<close>

theorem situations_exclusive:
  "s \<in> set (feelings (from_text now text ts)) \<union> set (events (from_text now text ts)) \<union>
       set (health (from_text now text ts)) \<Longrightarrow>
   s \<notin> set (situations (from_text now text ts))"
  by (auto simp: from_text_fields)

theorem situations_exclusive_witness:
  "''I felt happy at work.'' \<in>
     set (feelings (from_text \<lparr>year = 2024, month = 5, day = 17, hour = 8, minute = 30,
            second = 0, microsecond = 0\<rparr> ''I felt happy at work. The house was quiet.'' None)) \<union>
     set (events (from_text \<lparr>year = 2024, month = 5, day = 17, hour = 8, minute = 30,
            second = 0, microsecond = 0\<rparr> ''I felt happy at work. The house was quiet.'' None)) \<union>
     set (health (from_text \<lparr>year = 2024, month = 5, day = 17, hour = 8, minute = 30,
            second = 0, microsecond = 0\<rparr> ''I felt happy at work. The house was quiet.'' None)) \<and>
   ''I felt happy at work.'' \<notin>
     set (situations (from_text \<lparr>year = 2024, month = 5, day = 17, hour = 8, minute = 30,
            second = 0, microsecond = 0\<rparr> ''I felt happy at work. The house was quiet.'' None))"
proof -
  have sentences: "sentence_split ''I felt happy at work. The house was quiet.'' =
      [''I felt happy at work.'', ''The house was quiet.'']"
    by (simp add: sentence_split_def strip_def char_tables)
  have "lower ''I felt happy at work.'' = ''i felt happy at work.''"
    by (simp add: lower_def char_tables)
  then have "re_search_keyword False ''happy'' (lower ''I felt happy at work.'')"
    by (simp add: keyword_eval char_tables)
  then have "detect_keywords ''I felt happy at work.'' FEELING_KEYWORDS"
    by (rule detect_keywordsI) (simp add: FEELING_KEYWORDS_def)
  then have h: "''I felt happy at work.'' \<in>
     set (feelings (from_text \<lparr>year = 2024, month = 5, day = 17, hour = 8, minute = 30,
            second = 0, microsecond = 0\<rparr> ''I felt happy at work. The house was quiet.'' None)) \<union>
     set (events (from_text \<lparr>year = 2024, month = 5, day = 17, hour = 8, minute = 30,
            second = 0, microsecond = 0\<rparr> ''I felt happy at work. The house was quiet.'' None)) \<union>
     set (health (from_text \<lparr>year = 2024, month = 5, day = 17, hour = 8, minute = 30,
            second = 0, microsecond = 0\<rparr> ''I felt happy at work. The house was quiet.'' None))"
    by (simp add: from_text_fields sentences)
  from h situations_exclusive [OF h] show ?thesis by (rule conjI)
qed

text \<open>
  C4. Joining the sentences of the splitter with one space gives the stripped input,
  with every run of whitespace at a split boundary replaced by that one space. So the
  joined sentences and the input have the same characters other than whitespace, in
  the same order.
\<close>

theorem sentence_split_round_trip:
  "join '' '' (sentence_split text) = normalize_boundaries (strip text) \<and>
   filter (\<lambda>c. \<not> isspace c) (join '' '' (sentence_split text)) =
     filter (\<lambda>c. \<not> isspace c) text"
proof -
  have joined: "join '' '' (sentence_split text) = normalize_boundaries (strip text)"
  proof (cases "strip text = []")
    case True
    then show ?thesis by (simp add: sentence_split_blank)
  next
    case False
    then show ?thesis by (simp add: sentence_split_stripped join_re_split_terminal)
  qed
  then show ?thesis
    by (simp add: filter_not_space_normalize filter_not_space_strip)
qed

theorem sentence_split_round_trip_witness:
  "join '' '' (sentence_split ''  Rain again.   Why?  We stayed in  '') =
     ''Rain again. Why? We stayed in''"
proof -
  have "strip ''  Rain again.   Why?  We stayed in  '' = ''Rain again.   Why?  We stayed in''"
    by (simp add: strip_def char_tables)
  moreover have "normalize_boundaries ''Rain again.   Why?  We stayed in'' =
      ''Rain again. Why? We stayed in''"
    by (simp add: char_tables)
  moreover have "join '' '' (sentence_split ''  Rain again.   Why?  We stayed in  '') =
      normalize_boundaries (strip ''  Rain again.   Why?  We stayed in  '')"
    using sentence_split_round_trip [of "''  Rain again.   Why?  We stayed in  ''"]
    by (rule conjunct1)
  ultimately show ?thesis by (simp only:)
qed

text \<open>
  C5. A text that is not blank and has none of \<^verbatim>\<open>.\<close>, \<^verbatim>\<open>!\<close>, \<^verbatim>\<open>?\<close> gives one sentence, the
  stripped text; a blank text gives no sentence; every sentence the splitter gives is
  not empty and has no whitespace at either end.
\<close>

theorem sentence_split_edge_cases:
  "((\<exists>c \<in> set text. \<not> isspace c) \<and> (\<forall>c \<in> set text. \<not> is_terminal c) \<longrightarrow>
      sentence_split text = [strip text]) \<and>
   ((\<forall>c \<in> set text. isspace c) \<longrightarrow> sentence_split text = []) \<and>
   (\<forall>s \<in> set (sentence_split text).
      s \<noteq> [] \<and> strip s = s \<and> \<not> isspace (hd s) \<and> \<not> isspace (last s))"
proof (intro conjI impI ballI)
  assume a: "(\<exists>c \<in> set text. \<not> isspace c) \<and> (\<forall>c \<in> set text. \<not> is_terminal c)"
  then have ne: "strip text \<noteq> []" by (simp add: strip_eq_Nil)
  from a have "\<forall>c \<in> set (strip text). \<not> is_terminal c" using set_strip [of "text"] by blast
  then show "sentence_split text = [strip text]"
    using ne by (simp add: sentence_split_stripped re_split_terminal_no_terminal)
next
  assume "\<forall>c \<in> set text. isspace c"
  then have "strip text = []" by (simp add: strip_eq_Nil)
  then show "sentence_split text = []" by (rule sentence_split_blank)
next
  fix s assume s: "s \<in> set (sentence_split text)"
  then obtain q where q: "s = strip q" "strip q \<noteq> []"
    by (auto simp: sentence_split_def)
  from strip_ends [OF q(2)] q
  show "s \<noteq> []" "strip s = s" "\<not> isspace (hd s)" "\<not> isspace (last s)"
    by (simp_all add: strip_idem)
qed

theorem sentence_split_edge_cases_witness:
  "list_ex (\<lambda>c. \<not> isspace c) ''  no stop here  '' \<and>
   list_all (\<lambda>c. \<not> is_terminal c) ''  no stop here  '' \<and>
   sentence_split ''  no stop here  '' = [''no stop here''] \<and>
   list_all isspace ''   '' \<and> sentence_split ''   '' = [] \<and>
   ''Bye!'' \<in> set (sentence_split '' Hi.  Bye!  '') \<and> strip ''Bye!'' = ''Bye!''"
proof -
  have h1: "(\<exists>c \<in> set ''  no stop here  ''. \<not> isspace c) \<and>
      (\<forall>c \<in> set ''  no stop here  ''. \<not> is_terminal c)"
    by (simp add: char_tables)
  have s1: "strip ''  no stop here  '' = ''no stop here''"
    by (simp add: strip_def char_tables)
  have h2: "\<forall>c \<in> set ''   ''. isspace c"
    by (simp add: char_tables)
  have h3: "''Bye!'' \<in> set (sentence_split '' Hi.  Bye!  '')"
    by (simp add: sentence_split_def strip_def char_tables)
  from sentence_split_edge_cases [of "''  no stop here  ''"] h1
  have "sentence_split ''  no stop here  '' = [strip ''  no stop here  '']" by blast
  with s1 have c1: "sentence_split ''  no stop here  '' = [''no stop here'']" by (simp only:)
  from sentence_split_edge_cases [of "''   ''"] h2
  have c2: "sentence_split ''   '' = []" by blast
  from sentence_split_edge_cases [of "'' Hi.  Bye!  ''"] h3
  have c3: "strip ''Bye!'' = ''Bye!''" by blast
  from h1 have g1: "list_ex (\<lambda>c. \<not> isspace c) ''  no stop here  ''"
    and g2: "list_all (\<lambda>c. \<not> is_terminal c) ''  no stop here  ''"
    unfolding list_ex_iff list_all_iff by blast+
  from h2 have g3: "list_all isspace ''   ''"
    unfolding list_all_iff .
  from g1 g2 c1 g3 c2 h3 c3 show ?thesis by blast
qed

text \<open>
  C7. Entry construction with a given timestamp is a function of the text and the
  timestamp alone: the reading of the clock has no part in the entry, so two
  constructions from the same text and timestamp give the same record.
\<close>

theorem from_text_deterministic:
  "from_text now1 text (Some ts) = from_text now2 text (Some ts)"
  by (simp add: from_text_def)

theorem from_text_deterministic_witness:
  "from_text \<lparr>year = 2024, month = 5, day = 17, hour = 8, minute = 30, second = 0,
       microsecond = 0\<rparr> ''Mary was happy.''
     (Some \<lparr>year = 2023, month = 12, day = 31, hour = 23, minute = 59, second = 58,
       microsecond = 7\<rparr>) =
   from_text \<lparr>year = 2025, month = 1, day = 1, hour = 0, minute = 0, second = 1,
       microsecond = 0\<rparr> ''Mary was happy.''
     (Some \<lparr>year = 2023, month = 12, day = 31, hour = 23, minute = 59, second = 58,
       microsecond = 7\<rparr>)"
  by (rule from_text_deterministic)

text \<open>
  C8. On a text that is empty or all whitespace, entry construction gives an entry whose
  feelings, events, health, situations and people are all empty. The construction has
  no failing branch: \<^verbatim>\<open>from_text\<close> is a total function to entries.
\<close>

theorem from_text_blank:
  "\<forall>c \<in> set text. isspace c \<Longrightarrow>
   feelings (from_text now text ts) = [] \<and> events (from_text now text ts) = [] \<and>
   health (from_text now text ts) = [] \<and> situations (from_text now text ts) = [] \<and>
   people (from_text now text ts) = []"
proof -
  assume blank: "\<forall>c \<in> set text. isspace c"
  then have "strip text = []" by (simp add: strip_eq_Nil)
  then have "sentence_split text = []" by (rule sentence_split_blank)
  with extract_people_blank [OF blank] show ?thesis by (simp add: from_text_fields)
qed

theorem from_text_blank_witness:
  "feelings (from_text \<lparr>year = 2024, month = 5, day = 17, hour = 8, minute = 30, second = 0,
       microsecond = 0\<rparr> ''   '' None) = [] \<and>
   events (from_text \<lparr>year = 2024, month = 5, day = 17, hour = 8, minute = 30, second = 0,
       microsecond = 0\<rparr> ''   '' None) = [] \<and>
   health (from_text \<lparr>year = 2024, month = 5, day = 17, hour = 8, minute = 30, second = 0,
       microsecond = 0\<rparr> ''   '' None) = [] \<and>
   situations (from_text \<lparr>year = 2024, month = 5, day = 17, hour = 8, minute = 30, second = 0,
       microsecond = 0\<rparr> ''   '' None) = [] \<and>
   people (from_text \<lparr>year = 2024, month = 5, day = 17, hour = 8, minute = 30, second = 0,
       microsecond = 0\<rparr> ''   '' None) = []"
proof -
  have "\<forall>c \<in> set ''   ''. isspace c" by (simp add: char_tables)
  then show ?thesis by (rule from_text_blank)
qed

text \<open>
  C9. The \<^verbatim>\<open>raw_entry\<close> of an entry is the input text stripped of the whitespace at its
  ends, not the text as given; the people are read from the text as given, and the
  sentences from the splitter applied to it.
\<close>

theorem raw_entry_stripped:
  "raw_entry (from_text now text ts) = strip text \<and>
   people (from_text now text ts) = extract_people text \<and>
   feelings (from_text now text ts) =
     filter (\<lambda>s. detect_keywords s FEELING_KEYWORDS) (sentence_split text)"
  by (simp add: from_text_fields)

theorem raw_entry_stripped_witness:
  "raw_entry (from_text \<lparr>year = 2024, month = 5, day = 17, hour = 8, minute = 30, second = 0,
       microsecond = 0\<rparr> ''  Quiet day.  '' None) = ''Quiet day.'' \<and>
   ''Quiet day.'' \<noteq> ''  Quiet day.  ''"
proof -
  have "strip ''  Quiet day.  '' = ''Quiet day.''"
    by (simp add: strip_def char_tables)
  with raw_entry_stripped [of "\<lparr>year = 2024, month = 5, day = 17, hour = 8, minute = 30,
      second = 0, microsecond = 0\<rparr>" "''  Quiet day.  ''" None]
  show ?thesis by simp
qed

section \<open>The keyword search by positions\<close>

lemma is_word_lower_char: "is_word (lower_char c) = is_word c"
  by (auto simp: lower_char_def is_word_def is_upper_AZ_def is_lower_az_def code_def)

lemma re_search_keyword_positions:
  "re_search_keyword prev_word w cs \<longleftrightarrow>
   (\<exists>i \<le> length cs. keyword_here (if i = 0 then prev_word else is_word (cs ! (i - 1))) w (drop i cs))"
proof (induction cs arbitrary: prev_word)
  case Nil
  show ?case by simp
next
  case (Cons c cs)
  have "(\<exists>i \<le> length (c # cs).
          keyword_here (if i = 0 then prev_word else is_word ((c # cs) ! (i - 1))) w (drop i (c # cs))) \<longleftrightarrow>
        keyword_here prev_word w (c # cs) \<or>
        (\<exists>j \<le> length cs. keyword_here (is_word ((c # cs) ! j)) w (drop j cs))"
    (is "?L \<longleftrightarrow> ?A \<or> ?B")
  proof
    assume ?L
    then obtain i where i: "i \<le> length (c # cs)"
      "keyword_here (if i = 0 then prev_word else is_word ((c # cs) ! (i - 1))) w (drop i (c # cs))"
      by blast
    show "?A \<or> ?B"
    proof (cases i)
      case 0
      with i show ?thesis by simp
    next
      case (Suc j)
      with i have "j \<le> length cs" "keyword_here (is_word ((c # cs) ! j)) w (drop j cs)" by simp_all
      then show ?thesis by blast
    qed
  next
    assume "?A \<or> ?B"
    then show ?L
    proof
      assume ?A
      then show ?L by (intro exI [of _ 0]) simp
    next
      assume ?B
      then obtain j where "j \<le> length cs" "keyword_here (is_word ((c # cs) ! j)) w (drop j cs)"
        by blast
      then show ?L by (intro exI [of _ "Suc j"]) simp
    qed
  qed
  moreover have "(\<exists>j \<le> length cs. keyword_here (is_word ((c # cs) ! j)) w (drop j cs)) \<longleftrightarrow>
      (\<exists>j \<le> length cs. keyword_here (if j = 0 then is_word c else is_word (cs ! (j - 1))) w (drop j cs))"
    by (intro ex_cong1 conj_cong refl) (auto simp: nth_Cons')
  ultimately show ?case using Cons.IH [of "is_word c"] by simp
qed

lemma starts_word_drop: "starts_word (drop i t) = (i < length t \<and> is_word (t ! i))"
proof (cases "i < length t")
  case True
  then have "drop i t = t ! i # drop (Suc i) t" by (simp add: Cons_nth_drop_Suc)
  with True show ?thesis by (simp add: starts_word_def)
next
  case False
  then show ?thesis by (simp add: starts_word_def)
qed

lemma boundary_drop:
  "i \<le> length t \<Longrightarrow>
   boundary (if i = 0 then False else is_word (t ! (i - 1))) (drop i t) = is_boundary_at t i"
  by (auto simp: boundary_def starts_word_drop is_boundary_at_def)

lemma prefix_drop:
  assumes "i \<le> length t"
  shows "prefix w (drop i t) \<longleftrightarrow> i + length w \<le> length t \<and> take (length w) (drop i t) = w"
proof
  assume "prefix w (drop i t)"
  then obtain zs where zs: "drop i t = w @ zs" by (auto simp: prefix_def)
  then have "length (drop i t) = length w + length zs" by simp
  with assms have "i + length w \<le> length t" by simp
  moreover from zs have "take (length w) (drop i t) = w" by simp
  ultimately show "i + length w \<le> length t \<and> take (length w) (drop i t) = w" ..
next
  assume "i + length w \<le> length t \<and> take (length w) (drop i t) = w"
  then have "drop i t = w @ drop (length w) (drop i t)"
    by (metis append_take_drop_id)
  then show "prefix w (drop i t)" by (metis prefixI)
qed

lemma keyword_here_position:
  assumes "i \<le> length t"
  shows "keyword_here (if i = 0 then False else is_word (t ! (i - 1))) w (drop i t) \<longleftrightarrow>
     i + length w \<le> length t \<and> take (length w) (drop i t) = w \<and>
     is_boundary_at t i \<and> is_boundary_at t (i + length w)"
proof (cases "prefix w (drop i t)")
  case False
  then show ?thesis using prefix_drop [OF assms, of w] by (auto simp: keyword_here_def)
next
  case True
  then have len: "i + length w \<le> length t" and tk: "take (length w) (drop i t) = w"
    using prefix_drop [OF assms, of w] by simp_all
  have after: "boundary (if w = [] then (if i = 0 then False else is_word (t ! (i - 1)))
                  else is_word (last w)) (drop (length w) (drop i t)) =
        is_boundary_at t (i + length w)"
  proof (cases "w = []")
    case True
    with assms show ?thesis using boundary_drop [of i t] by simp
  next
    case False
    then have "last w = w ! (length w - 1)" by (simp add: last_conv_nth)
    also have "\<dots> = take (length w) (drop i t) ! (length w - 1)" by (simp add: tk)
    also have "\<dots> = t ! (i + (length w - 1))" using False len by simp
    also have "i + (length w - 1) = i + length w - 1" using False by (cases w) simp_all
    finally have "last w = t ! (i + length w - 1)" .
    with False len show ?thesis
      using boundary_drop [of "i + length w" t] by (simp add: add.commute)
  qed
  show ?thesis
    unfolding keyword_here_def after using True len tk boundary_drop [OF assms] by simp
qed

lemma is_boundary_at_lower: "is_boundary_at (lower s) i = is_boundary_at s i"
  by (auto simp: is_boundary_at_def lower_def is_word_lower_char)

lemma length_lower: "length (lower s) = length s"
  by (simp add: lower_def)

lemma take_drop_lower: "take n (drop i (lower s)) = lower (take n (drop i s))"
  by (simp add: lower_def take_map drop_map)

lemma re_search_keyword_whole_word:
  "re_search_keyword False w (lower s) \<longleftrightarrow> (\<exists>i \<in> {..length s}. whole_word_at s w i)"
proof -
  have "re_search_keyword False w (lower s) \<longleftrightarrow>
      (\<exists>i \<le> length (lower s).
         keyword_here (if i = 0 then False else is_word (lower s ! (i - 1))) w (drop i (lower s)))"
    by (rule re_search_keyword_positions)
  also have "\<dots> \<longleftrightarrow> (\<exists>i \<le> length (lower s).
      i + length w \<le> length (lower s) \<and> take (length w) (drop i (lower s)) = w \<and>
      is_boundary_at (lower s) i \<and> is_boundary_at (lower s) (i + length w))"
    by (intro ex_cong1 conj_cong refl keyword_here_position)
  also have "\<dots> \<longleftrightarrow> (\<exists>i \<in> {..length s}. whole_word_at s w i)"
    by (auto simp: whole_word_at_def is_boundary_at_lower length_lower take_drop_lower)
  finally show ?thesis .
qed

lemma detect_keywords_whole_word: "detect_keywords s ws = whole_word_match s ws"
  by (simp add: detect_keywords_def whole_word_match_def list_ex_iff re_search_keyword_whole_word)

text \<open>
  C2. The keyword matcher returns true exactly when a word of the vocabulary occurs in
  the sentence as a whole word, compared without regard to case and delimited by word
  boundaries. With \<^verbatim>\<open>game\<close> in the vocabulary, the sentence \<^verbatim>\<open>gamer\<close> does not match (neither
  on \<^verbatim>\<open>game\<close> alone nor on the event vocabulary), and \<^verbatim>\<open>game night\<close> matches.
\<close>

theorem detect_keywords_whole_words:
  "detect_keywords s ws = whole_word_match s ws \<and>
   \<not> detect_keywords ''gamer'' [''game''] \<and>
   \<not> detect_keywords ''gamer'' EVENT_KEYWORDS \<and>
   (''game'' \<in> set ws \<longrightarrow> detect_keywords ''game night'' ws)"
proof (intro conjI impI)
  show "detect_keywords s ws = whole_word_match s ws"
    by (rule detect_keywords_whole_word)
  have gamer: "lower ''gamer'' = ''gamer''"
    by (simp add: lower_def char_tables)
  show "\<not> detect_keywords ''gamer'' [''game'']"
    by (simp add: detect_keywords_def gamer keyword_eval char_tables)
  show "\<not> detect_keywords ''gamer'' EVENT_KEYWORDS"
    by (simp add: detect_keywords_def gamer EVENT_KEYWORDS_def keyword_eval char_tables)
  have "lower ''game night'' = ''game night''"
    by (simp add: lower_def char_tables)
  then have "re_search_keyword False ''game'' (lower ''game night'')"
    by (simp add: keyword_eval char_tables)
  then show "detect_keywords ''game night'' ws" if "''game'' \<in> set ws"
    using that by (rule detect_keywordsI)
qed

theorem detect_keywords_whole_words_witness:
  "''game'' \<in> set [''party'', ''game''] \<and>
   detect_keywords ''game night'' [''party'', ''game''] \<and>
   whole_word_match ''game night'' [''party'', ''game'']"
proof -
  have h: "''game'' \<in> set [''party'', ''game'']" by simp
  from detect_keywords_whole_words [of "''game night''" "[''party'', ''game'']"] h
  have d: "detect_keywords ''game night'' [''party'', ''game'']" by blast
  from detect_keywords_whole_words [of "''game night''" "[''party'', ''game'']"] d
  have "whole_word_match ''game night'' [''party'', ''game'']" by blast
  with h d show ?thesis by blast
qed

section \<open>The shape of a name candidate\<close>

lemma lower_not_space: "is_lower_az c \<Longrightarrow> \<not> isspace c"
  by (auto simp: is_lower_az_def isspace_def)

lemma lower_not_upper: "is_lower_az c \<Longrightarrow> \<not> is_upper_AZ c"
  by (auto simp: is_lower_az_def is_upper_AZ_def)

lemma upper_not_space: "is_upper_AZ c \<Longrightarrow> \<not> isspace c"
  by (auto simp: is_upper_AZ_def isspace_def)

lemma lone_capital_small_run:
  "list_all is_lower_az xs \<Longrightarrow> xs \<noteq> [] \<Longrightarrow> lone_capital b (xs @ rest) = lone_capital False rest"
proof (induction xs arbitrary: b)
  case Nil
  then show ?case by simp
next
  case (Cons x xs)
  then show ?case
    by (cases xs) (auto simp: lower_not_space lower_not_upper)
qed

lemma lone_capital_titlecase_word:
  assumes "titlecase_word w"
  shows "lone_capital b (w @ rest) = lone_capital False rest"
proof -
  from assms obtain c cs where w: "w = c # cs" "is_upper_AZ c" "cs \<noteq> []" "list_all is_lower_az cs"
    by (auto simp: titlecase_word_def split: list.splits)
  then obtain d ds where cs: "cs = d # ds" by (cases cs) auto
  with w have "\<not> isspace d" by (simp add: lower_not_space)
  with w cs have "lone_capital b (w @ rest) = lone_capital False (cs @ rest)"
    by (simp add: upper_not_space)
  with w show ?thesis by (simp add: lone_capital_small_run)
qed

lemma lone_capital_titlecase_run:
  "titlecase_words w sws \<Longrightarrow> \<not> lone_capital b (titlecase_run w sws)"
proof -
  have tail: "list_all (\<lambda>(sp, v). isspace sp \<and> titlecase_word v) sws \<Longrightarrow>
      \<not> lone_capital False (concat (map (\<lambda>(sp, v). sp # v) sws))" for sws
  proof (induction sws)
    case Nil
    show ?case by simp
  next
    case (Cons a sws)
    obtain sp v where a: "a = (sp, v)" by (cases a)
    with Cons.prems have sp: "isspace sp" and v: "titlecase_word v" by simp_all
    from Cons have "\<not> lone_capital False (concat (map (\<lambda>(sp, v). sp # v) sws))" by simp
    with a sp show ?case by (simp add: lone_capital_titlecase_word [OF v])
  qed
  assume "titlecase_words w sws"
  then show ?thesis
    by (simp add: titlecase_words_def titlecase_run_def lone_capital_titlecase_word tail)
qed

section \<open>Matches of the name pattern\<close>

lemma more_title_words_Nil: "more_title_words [] = ([], [])"
  by simp

lemma more_title_words_Cons:
  "more_title_words (sp # cs) =
     (if isspace sp
      then (case title_word cs of
              None \<Rightarrow> ([], sp # cs)
            | Some (w, rest) \<Rightarrow>
                (case more_title_words rest of (ws, r) \<Rightarrow> ((sp # w) # ws, r)))
      else ([], sp # cs))"
  by (subst more_title_words.simps) simp

declare more_title_words.simps [simp del]

lemma title_word_SomeD:
  assumes "title_word s = Some (w, rest)"
  shows "titlecase_word w" and "s = w @ rest"
proof -
  from assms obtain c cs where s: "s = c # cs" "is_upper_AZ c" "takeWhile is_lower_az cs \<noteq> []"
      "w = c # takeWhile is_lower_az cs" "rest = dropWhile is_lower_az cs"
    by (auto simp: title_word_def split: list.splits if_splits)
  have "list_all is_lower_az (takeWhile is_lower_az cs)"
    by (auto simp: list_all_iff dest: set_takeWhileD)
  with s show "titlecase_word w" by (simp add: titlecase_word_def)
  from s show "s = w @ rest" by simp
qed

lemma more_title_words_shape:
  "more_title_words s = (ws, r) \<Longrightarrow>
   \<exists>sws. ws = map (\<lambda>(sp, v). sp # v) sws \<and>
         list_all (\<lambda>(sp, v). isspace sp \<and> titlecase_word v) sws \<and> s = concat ws @ r"
proof (induction s arbitrary: ws r rule: more_title_words.induct)
  case (1 s)
  show ?case
  proof (cases s)
    case Nil
    with "1.prems" show ?thesis by (simp add: more_title_words_Nil)
  next
    case (Cons sp cs)
    show ?thesis
    proof (cases "isspace sp")
      case False
      with "1.prems" Cons show ?thesis by (simp add: more_title_words_Cons)
    next
      case True
      show ?thesis
      proof (cases "title_word cs")
        case None
        with "1.prems" Cons True show ?thesis by (simp add: more_title_words_Cons)
      next
        case (Some a)
        obtain w rest where a: "a = (w, rest)" by (cases a)
        obtain ws' r' where rec: "more_title_words rest = (ws', r')"
          by (cases "more_title_words rest")
        from "1.IH" [OF Cons True Some a [symmetric] rec] obtain sws where
          sws: "ws' = map (\<lambda>(sp, v). sp # v) sws"
            "list_all (\<lambda>(sp, v). isspace sp \<and> titlecase_word v) sws" "rest = concat ws' @ r'"
          by auto
        from "1.prems" Cons True Some a rec have res: "ws = (sp # w) # ws'" "r = r'"
          by (simp_all add: more_title_words_Cons)
        from Some a have w: "titlecase_word w" "cs = w @ rest"
          by (auto dest: title_word_SomeD)
        show ?thesis
        proof (intro exI [of _ "(sp, w) # sws"] conjI)
          show "ws = map (\<lambda>(sp, v). sp # v) ((sp, w) # sws)" using res sws by simp
          show "list_all (\<lambda>(sp, v). isspace sp \<and> titlecase_word v) ((sp, w) # sws)"
            using True w sws by simp
          show "s = concat ws @ r" using Cons res w sws by simp
        qed
      qed
    qed
  qed
qed

lemma name_match_here_shape:
  assumes "name_match_here s = Some (m, rest)"
  shows "\<exists>w sws. titlecase_words w sws \<and> m = titlecase_run w sws"
proof -
  from assms obtain w rest' ws r where
    tw: "title_word s = Some (w, rest')" and
    mw: "more_title_words rest' = (ws, r)" and
    m: "m = w @ concat ws \<or> m = w @ concat (butlast ws)"
    by (auto simp: name_match_here_def split: option.splits prod.splits if_splits)
  from more_title_words_shape [OF mw] obtain sws where
    sws: "ws = map (\<lambda>(sp, v). sp # v) sws"
      "list_all (\<lambda>(sp, v). isspace sp \<and> titlecase_word v) sws"
    by blast
  have w: "titlecase_word w" using tw by (rule title_word_SomeD)
  from sws(2) have "list_all (\<lambda>(sp, v). isspace sp \<and> titlecase_word v) (butlast sws)"
    by (auto simp: list_all_iff dest: in_set_butlastD)
  with w sws have "titlecase_words w sws" "titlecase_words w (butlast sws)"
    by (simp_all add: titlecase_words_def)
  moreover have "w @ concat ws = titlecase_run w sws"
    "w @ concat (butlast ws) = titlecase_run w (butlast sws)"
    using sws(1) by (simp_all add: titlecase_run_def map_butlast)
  ultimately show ?thesis using m by metis
qed

lemma name_finditer_shape:
  "m \<in> set (name_finditer prev_word s) \<Longrightarrow>
   \<exists>w sws. titlecase_words w sws \<and> m = titlecase_run w sws"
proof (induction prev_word s rule: name_finditer.induct)
  case (1 prev_word)
  then show ?case by simp
next
  case (2 prev_word c cs)
  show ?case
  proof (cases "boundary prev_word (c # cs)")
    case False
    with 2 show ?thesis by simp
  next
    case True
    show ?thesis
    proof (cases "name_match_here (c # cs)")
      case None
      with True 2 show ?thesis by simp
    next
      case (Some a)
      obtain m' rest where a: "a = (m', rest)" by (cases a)
      from "2.prems" True Some a have "m = m' \<or> m \<in> set (name_finditer True rest)" by simp
      then show ?thesis
      proof
        assume "m = m'"
        with Some a show ?thesis using name_match_here_shape by blast
      next
        assume "m \<in> set (name_finditer True rest)"
        with "2.IH"(2) [OF True Some a [symmetric]] show ?thesis by blast
      qed
    qed
  qed
qed

section \<open>Evaluating the name search on a given text\<close>

lemmas name_eval =
  boundary_def starts_word_def name_match_here_def title_word_def
  more_title_words_Nil more_title_words_Cons

lemma extract_people_sort:
  "extract_people text =
     sort (remdups (filter (\<lambda>m. m \<notin> set STOP_WORDS) (name_finditer False text)))"
  by (simp only: extract_people_def Let_def sorted_list_of_set_sort_remdups)

lemma extract_peopleI:
  "name_finditer False text = ms \<Longrightarrow> filter (\<lambda>m. m \<notin> set STOP_WORDS) ms = keep \<Longrightarrow>
   remdups keep = ds \<Longrightarrow> sort ds = out \<Longrightarrow> extract_people text = out"
  by (simp only: extract_people_sort)

section \<open>A run of Titlecase words in a text\<close>










section \<open>A maximal run of Titlecase words\<close>





















text \<open>
  C10. A token that is a single capital letter is never a name candidate, alone or as a
  word of a longer candidate: every match of the name pattern is a run of Titlecase
  words, each with a small letter after its capital. This is so before the stop words
  are taken out, hence for any set of stop words.
\<close>

theorem single_capital_never_a_name:
  "(\<forall>m \<in> set (name_finditer False text).
      (\<exists>w sws. titlecase_words w sws \<and> m = titlecase_run w sws) \<and> \<not> lone_capital True m) \<and>
   (\<forall>m \<in> set (extract_people text). \<not> lone_capital True m) \<and>
   (is_upper_AZ c \<longrightarrow> [c] \<notin> set (name_finditer False text)) \<and>
   name_finditer False ''I saw J Smith'' = [''Smith'']"
proof -
  have shape: "(\<exists>w sws. titlecase_words w sws \<and> m = titlecase_run w sws) \<and> \<not> lone_capital True m"
    if "m \<in> set (name_finditer False text)" for m
    using name_finditer_shape [OF that] lone_capital_titlecase_run by blast
  have sub: "set (extract_people text) \<subseteq> set (name_finditer False text)"
    by (auto simp: extract_people_def)
  have single: "lone_capital True [c]" if "is_upper_AZ c"
    using that by simp
  have "name_finditer False ''I saw J Smith'' = [''Smith'']"
    by (simp add: name_eval char_tables)
  with shape sub single show ?thesis by blast
qed

theorem single_capital_never_a_name_witness:
  "''Smith'' \<in> set (name_finditer False ''I saw J Smith'') \<and>
   \<not> lone_capital True ''Smith'' \<and> lone_capital True ''J Smith'' \<and>
   ''J Smith'' \<notin> set (name_finditer False ''I saw J Smith'')"
proof -
  from single_capital_never_a_name [of "''I saw J Smith''"]
  have h: "''Smith'' \<in> set (name_finditer False ''I saw J Smith'')" by simp
  have l: "lone_capital True ''J Smith''" by (simp add: char_tables)
  from single_capital_never_a_name [of "''I saw J Smith''"] h l show ?thesis by blast
qed

section \<open>The birthday scenario\<close>

lemma birthday_sentences:
  "sentence_split ''Today was my birthday party and I felt so grateful. It rained all day though.'' =
     [''Today was my birthday party and I felt so grateful.'', ''It rained all day though.'']"
  by (simp add: sentence_split_def strip_def char_tables)

lemma birthday_lower:
  "lower ''Today was my birthday party and I felt so grateful.'' =
     ''today was my birthday party and i felt so grateful.''"
  "lower ''It rained all day though.'' = ''it rained all day though.''"
  by (simp_all add: lower_def char_tables)

lemma birthday_first_feeling:
  "detect_keywords ''Today was my birthday party and I felt so grateful.'' FEELING_KEYWORDS"
proof -
  have "re_search_keyword False ''grateful''
      (lower ''Today was my birthday party and I felt so grateful.'')"
    by (simp add: birthday_lower keyword_eval char_tables)
  then show ?thesis by (rule detect_keywordsI) (simp add: FEELING_KEYWORDS_def)
qed

lemma birthday_first_event:
  "detect_keywords ''Today was my birthday party and I felt so grateful.'' EVENT_KEYWORDS"
proof -
  have "re_search_keyword False ''birthday''
      (lower ''Today was my birthday party and I felt so grateful.'')"
    by (simp add: birthday_lower keyword_eval char_tables)
  then show ?thesis by (rule detect_keywordsI) (simp add: EVENT_KEYWORDS_def)
qed

lemma birthday_first_health:
  "\<not> detect_keywords ''Today was my birthday party and I felt so grateful.'' HEALTH_KEYWORDS"
  by (simp add: detect_keywords_def birthday_lower HEALTH_KEYWORDS_def keyword_eval char_tables)

lemma birthday_second_feeling:
  "\<not> detect_keywords ''It rained all day though.'' FEELING_KEYWORDS"
  by (simp add: detect_keywords_def birthday_lower FEELING_KEYWORDS_def keyword_eval char_tables)

lemma birthday_second_event:
  "\<not> detect_keywords ''It rained all day though.'' EVENT_KEYWORDS"
  by (simp add: detect_keywords_def birthday_lower EVENT_KEYWORDS_def keyword_eval char_tables)

lemma birthday_second_health:
  "\<not> detect_keywords ''It rained all day though.'' HEALTH_KEYWORDS"
  by (simp add: detect_keywords_def birthday_lower HEALTH_KEYWORDS_def keyword_eval char_tables)

lemma birthday_second_situation:
  "\<not> detect_keywords ''It rained all day though.'' SITUATION_KEYWORDS"
  by (simp add: detect_keywords_def birthday_lower SITUATION_KEYWORDS_def keyword_eval char_tables)

lemma birthday_people:
  "extract_people ''Today was my birthday party and I felt so grateful. It rained all day though.'' = []"
proof -
  have "name_finditer False
      ''Today was my birthday party and I felt so grateful. It rained all day though.'' =
      [''Today'', ''It'']"
    by (simp add: name_eval char_tables)
  then show ?thesis
    by (rule extract_peopleI [where keep = "[]" and ds = "[]"]) (simp_all add: STOP_WORDS_def)
qed

lemmas birthday_facts =
  birthday_sentences birthday_first_feeling birthday_first_event birthday_first_health
  birthday_second_feeling birthday_second_event birthday_second_health
  birthday_second_situation birthday_people

text \<open>
  C1, as stated, has the sentence \<^verbatim>\<open>It rained all day though.\<close> among the situations. The
  keyword is \<^verbatim>\<open>rain\<close>, and in \<^verbatim>\<open>rained\<close> no word boundary follows it: the sentence matches
  no vocabulary, and the situations are empty.
\<close>

theorem birthday_situations_counterexample:
  "situations (from_text
      \<lparr>year = 2024, month = 5, day = 17, hour = 8, minute = 30, second = 0, microsecond = 0\<rparr>
      ''Today was my birthday party and I felt so grateful. It rained all day though.''
      (Some \<lparr>year = 2024, month = 5, day = 17, hour = 8, minute = 30, second = 0,
         microsecond = 0\<rparr>)) \<noteq>
   [''It rained all day though.'']"
  by (simp add: from_text_fields birthday_facts)

text \<open>
  C1, amended. For the text \<^verbatim>\<open>Today was my birthday party and I felt so grateful. It rained
  all day though.\<close>, with any clock and any timestamp, the events and the feelings are the
  first sentence, and the health, the situations and the people are empty.
\<close>

theorem birthday_scenario:
  "events (from_text now
      ''Today was my birthday party and I felt so grateful. It rained all day though.'' ts) =
     [''Today was my birthday party and I felt so grateful.''] \<and>
   feelings (from_text now
      ''Today was my birthday party and I felt so grateful. It rained all day though.'' ts) =
     [''Today was my birthday party and I felt so grateful.''] \<and>
   health (from_text now
      ''Today was my birthday party and I felt so grateful. It rained all day though.'' ts) = [] \<and>
   situations (from_text now
      ''Today was my birthday party and I felt so grateful. It rained all day though.'' ts) = [] \<and>
   people (from_text now
      ''Today was my birthday party and I felt so grateful. It rained all day though.'' ts) = []"
  by (simp add: from_text_fields birthday_facts)

theorem birthday_scenario_witness:
  "situations (from_text
      \<lparr>year = 2024, month = 5, day = 17, hour = 8, minute = 30, second = 0, microsecond = 0\<rparr>
      ''Today was my birthday party and I felt so grateful. It rained all day though.''
      None) = [] \<and>
   timestamp (from_text
      \<lparr>year = 2024, month = 5, day = 17, hour = 8, minute = 30, second = 0, microsecond = 0\<rparr>
      ''Today was my birthday party and I felt so grateful. It rained all day though.''
      None) = ''2024-05-17T08:30:00''"
proof -
  have "isoformat_seconds
      \<lparr>year = 2024, month = 5, day = 17, hour = 8, minute = 30, second = 0, microsecond = 0\<rparr> =
      ''2024-05-17T08:30:00''"
    by (simp add: isoformat_seconds_def zero_pad_def digit_def char_of_eq_iff)
  then have stamp: "timestamp (from_text
      \<lparr>year = 2024, month = 5, day = 17, hour = 8, minute = 30, second = 0, microsecond = 0\<rparr>
      ''Today was my birthday party and I felt so grateful. It rained all day though.''
      None) = ''2024-05-17T08:30:00''"
    by (simp add: from_text_fields)
  from birthday_scenario [of "\<lparr>year = 2024, month = 5, day = 17, hour = 8, minute = 30,
      second = 0, microsecond = 0\<rparr>" None]
  have "situations (from_text
      \<lparr>year = 2024, month = 5, day = 17, hour = 8, minute = 30, second = 0, microsecond = 0\<rparr>
      ''Today was my birthday party and I felt so grateful. It rained all day though.''
      None) = []"
    by blast
  with stamp show ?thesis by blast
qed

end
